theory Spec2Isabelle
  imports Main
begin

section \<open>SCDMsgCenter: the message center of msgcenter.cpp\<close>

text \<open>
  The class keeps two lists, \<open>clients\<close> (the connected sessions) and \<open>senders\<close> (the
  registered sender names). Every method is modelled as a function of the state that
  returns the new state and the signals it emitted, in emission order. A read or write
  out of the range of a \<open>QList\<close> or a \<open>QString\<close> is the error \<open>IndexOutOfRange\<close>.
  The mutex of the public wrappers is not modelled: each wrapper only locks, calls the
  private method of the same purpose and unlocks.
\<close>

subsection \<open>QString and QStringList operations\<close>

text \<open>
  A \<open>QString\<close> is modelled as a \<open>string\<close> whose characters are the code points below
  256 (Latin-1). The character \<open>NL\<close> is the \<open>\n\<close> of the C++ string literals, \<open>CR\<close>
  is \<open>\r\<close>.
\<close>

abbreviation NL :: char where
  "NL \<equiv> CHR 0x0A"

abbreviation CR :: char where
  "CR \<equiv> CHR 0x0D"

text \<open>
  Modelled from the spec: the macro \<open>LF\<close> is declared in msgcenter.h, which is not among
  the sources; the spec calls it one line-separator character.
\<close>

definition LF :: string where
  "LF = [NL]"

text \<open>\<open>QChar::isSpace\<close> below 256: tab to carriage return, space, NEL and NBSP.\<close>

definition isSpace :: "char \<Rightarrow> bool" where
  "isSpace c =
     (let n = (of_char c :: nat)
      in n = 32 \<or> (9 \<le> n \<and> n \<le> 13) \<or> n = 133 \<or> n = 160)"

text \<open>
  \<open>QChar::toLower\<close> below 256: the letters A to Z and the upper-case letters of
  Latin-1 (0xC0 to 0xDE without the multiplication sign 0xD7) move up by 32.
\<close>

definition toLower_char :: "char \<Rightarrow> char" where
  "toLower_char c =
     (let n = (of_char c :: nat)
      in if (65 \<le> n \<and> n \<le> 90) \<or> (192 \<le> n \<and> n \<le> 222 \<and> n \<noteq> 215)
         then char_of (n + 32) else c)"

definition toLower :: "string \<Rightarrow> string" where
  "toLower s = map toLower_char s"

text \<open>\<open>QString::trimmed\<close>: white space removed from the start and the end.\<close>

definition trimmed :: "string \<Rightarrow> string" where
  "trimmed s = rev (dropWhile isSpace (rev (dropWhile isSpace s)))"

text \<open>
  \<open>cmd.split(" ", QString::SkipEmptyParts, Qt::CaseInsensitive)\<close>: the string is cut at
  every space character and the empty parts are left out. \<open>part\<close> is the part being
  read.
\<close>

fun split_from :: "string \<Rightarrow> string \<Rightarrow> string list" where
  "split_from part [] = (if part = [] then [] else [part])"
| "split_from part (c # cs) =
     (if c = CHR '' ''
      then (if part = [] then split_from [] cs else part # split_from [] cs)
      else split_from (part @ [c]) cs)"

definition split_SkipEmptyParts :: "string \<Rightarrow> string list" where
  "split_SkipEmptyParts cmd = split_from [] cmd"

text \<open>\<open>list.join(" ")\<close>.\<close>

fun join :: "string list \<Rightarrow> string" where
  "join [] = []"
| "join [x] = x"
| "join (x # y # zs) = x @ '' '' @ join (y # zs)"

text \<open>\<open>QString::number(int)\<close>: the decimal digits, after a minus sign below zero.\<close>

fun number_nat :: "nat \<Rightarrow> string" where
  "number_nat n =
     (if n < 10 then [char_of (48 + n)]
      else number_nat (n div 10) @ [char_of (48 + n mod 10)])"

declare number_nat.simps [simp del]

definition number :: "int \<Rightarrow> string" where
  "number i = (if i < 0 then CHR ''-'' # number_nat (nat (- i)) else number_nat (nat i))"

subsection \<open>The state\<close>

text \<open>
  Modelled from the spec: the struct \<open>Client\<close> is declared in msgcenter.h, which is not
  among the sources. Its fields are those msgcenter.cpp reads and writes, under the
  names it uses; \<open>mode\<close> is 0 in console mode and 1 in spy mode. A default-constructed
  \<open>Client\<close> has empty strings; its integer fields are taken as 0 (no method reads one
  before it is assigned).
\<close>

record Client =
  socketDescriptor :: int
  name :: string
  user :: string
  admin :: int
  mode :: int
  Sender :: string
  index :: int

definition Client_default :: Client where
  "Client_default =
     \<lparr>socketDescriptor = 0, name = [], user = [], admin = 0, mode = 0, Sender = [],
      index = 0\<rparr>"

record MsgCenter =
  clients :: "Client list"
  senders :: "string list"

text \<open>The constructor leaves both lists empty.\<close>

definition SCDMsgCenter :: MsgCenter where
  "SCDMsgCenter = \<lparr>clients = [], senders = []\<rparr>"

datatype signal =
  messageToClient_signal string int
| commandToSender_signal string string

datatype error = IndexOutOfRange

subsection \<open>Lookups\<close>

text \<open>
  \<open>getClient\<close>: the first record with the socket descriptor, its \<open>index\<close> set to its
  position; a default record with \<open>index = -1\<close> when there is none.
\<close>

function getClient_from :: "nat \<Rightarrow> int \<Rightarrow> Client list \<Rightarrow> Client" where
  "getClient_from n sd cs =
     (if n < length cs
      then (if socketDescriptor (cs ! n) = sd then (cs ! n)\<lparr>index := int n\<rparr>
            else getClient_from (Suc n) sd cs)
      else Client_default\<lparr>index := - 1\<rparr>)"
  by pat_completeness auto
termination
  by (relation "measure (\<lambda>(n, sd, cs). length cs - n)") auto

declare getClient_from.simps [simp del]

definition getClient :: "int \<Rightarrow> MsgCenter \<Rightarrow> Client" where
  "getClient sd st = getClient_from 0 sd (clients st)"

definition getSenderList :: "MsgCenter \<Rightarrow> string list" where
  "getSenderList st = senders st"

definition getHelpString :: string where
  "getHelpString =
     '' Command Help:'' @ [NL] @ [NL] @
     ''   - list                    => get a list of message senders'' @ [NL] @
     ''   - spy <sender id>         => receive message only by sender identified by sender id'' @ [NL] @
     ''   - <cr> (carriage return)  => stop realtime message receiving and show help'' @ [NL] @
     ''   - help                    => show this help'' @ [NL] @
     ''   - exit                    => close connection to message center'' @ [NL] @
     ''   - @<sender id> <command>  => sends a string to sender by message center'' @ [NL] @
     ''   - ping                    => message center reply pong'' @ [NL] @
     ''   - <unkown command>        => return echo of command'' @ [NL]"

definition getPrompt :: "int \<Rightarrow> MsgCenter \<Rightarrow> string" where
  "getPrompt sd st =
     (let client = getClient sd st
      in if index client > - 1 then [NL] @ name client @ '':> '' else [])"

subsection \<open>Publishing\<close>

text \<open>\<open>processMessage\<close>: the loop over \<open>clients\<close>, from position \<open>n\<close> on.\<close>

function processMessage_from :: "nat \<Rightarrow> string \<Rightarrow> string \<Rightarrow> Client list \<Rightarrow> signal list" where
  "processMessage_from n msg sender cs =
     (if n < length cs
      then (if Sender (cs ! n) = sender \<and> mode (cs ! n) = 1
            then [messageToClient_signal msg (socketDescriptor (cs ! n))] else [])
           @ processMessage_from (Suc n) msg sender cs
      else [])"
  by pat_completeness auto
termination
  by (relation "measure (\<lambda>(n, msg, sender, cs). length cs - n)") auto

declare processMessage_from.simps [simp del]

definition processMessage :: "string \<Rightarrow> string \<Rightarrow> MsgCenter \<Rightarrow> MsgCenter \<times> signal list" where
  "processMessage msg sender st = (st, processMessage_from 0 msg sender (clients st))"

definition postMessage :: "string \<Rightarrow> string \<Rightarrow> bool \<Rightarrow> MsgCenter \<Rightarrow> MsgCenter \<times> signal list" where
  "postMessage msg sender prependNewLine st =
     (let msg1 = sender @ '': '' @ msg;
          msg2 = (if prependNewLine then LF @ msg1 else msg1)
      in processMessage msg2 sender st)"

subsection \<open>Registering and unregistering\<close>

text \<open>\<open>QList::removeAt\<close> does nothing out of range.\<close>

definition removeAt :: "'a list \<Rightarrow> int \<Rightarrow> 'a list" where
  "removeAt xs i =
     (if 0 \<le> i \<and> i < int (length xs) then take (nat i) xs @ drop (Suc (nat i)) xs else xs)"

definition unregisterClient :: "int \<Rightarrow> MsgCenter \<Rightarrow> MsgCenter" where
  "unregisterClient sd st =
     (let client = getClient sd st
      in if index client > - 1 then st\<lparr>clients := removeAt (clients st) (index client)\<rparr>
         else st)"

definition unregisterMessageSender :: "string \<Rightarrow> MsgCenter \<Rightarrow> MsgCenter" where
  "unregisterMessageSender sender st = st\<lparr>senders := remove1 sender (senders st)\<rparr>"

definition registerClient :: "int \<Rightarrow> MsgCenter \<Rightarrow> MsgCenter \<times> signal list" where
  "registerClient sd st =
     (let client = getClient sd st
      in if index client = - 1
         then (let client1 = client\<lparr>socketDescriptor := sd, name := ''Host-'' @ number sd,
                     user := ''Anonymous'', admin := 0, mode := 0\<rparr>;
                   st1 = st\<lparr>clients := clients st @ [client1]\<rparr>;
                   msg = [NL, NL] @ ''Message Center 1.0'' @ [NL, NL] @ getHelpString
                         @ getPrompt sd st1
               in (st1, [messageToClient_signal msg sd]))
         else (st, []))"

definition registerMessageSender :: "string \<Rightarrow> MsgCenter \<Rightarrow> MsgCenter" where
  "registerMessageSender sender st =
     (if sender \<notin> set (senders st) then st\<lparr>senders := senders st @ [sender]\<rparr> else st)"

subsection \<open>Commands\<close>

text \<open>
  \<open>QList::replace(i, value)\<close> asserts \<open>0 \<le> i < size\<close> and writes through the index
  otherwise unchecked: out of range it is the error.
\<close>

definition replace :: "Client list \<Rightarrow> int \<Rightarrow> Client \<Rightarrow> error + Client list" where
  "replace cs i c =
     (if 0 \<le> i \<and> i < int (length cs) then Inr (cs[nat i := c]) else Inl IndexOutOfRange)"

text \<open>The loop of the \<open>list\<close> command over \<open>senders\<close>, from position \<open>n\<close> on.\<close>

function list_from :: "nat \<Rightarrow> string \<Rightarrow> string list \<Rightarrow> string" where
  "list_from n msg ss =
     (if n < length ss then list_from (Suc n) (msg @ ''   - '' @ ss ! n @ [NL]) ss else msg)"
  by pat_completeness auto
termination
  by (relation "measure (\<lambda>(n, msg, ss). length ss - n)") auto

declare list_from.simps [simp del]

text \<open>
  \<open>processCommand\<close>. \<open>list[0]\<close> on an empty token list and \<open>at(0)\<close> on an empty
  string are reads out of range; \<open>list[1]\<close> is guarded by \<open>list.size() > 1\<close>.
\<close>

definition processCommand :: "string \<Rightarrow> int \<Rightarrow> MsgCenter \<Rightarrow> error + MsgCenter \<times> signal list" where
  "processCommand cmd0 sd st =
     (let client = getClient sd st;
          list = split_SkipEmptyParts cmd0
      in if list = [] then Inl IndexOutOfRange
         else
           let cmd = toLower (list ! 0)
           in if cmd = [CR, NL] \<or> cmd = [NL]
              then (case replace (clients st) (index client) (client\<lparr>mode := 0\<rparr>) of
                      Inl e \<Rightarrow> Inl e
                    | Inr cs \<Rightarrow>
                        let st1 = st\<lparr>clients := cs\<rparr>
                        in Inr (st1, [messageToClient_signal
                                        ([NL] @ getHelpString @ getPrompt sd st1) sd]))
              else if trimmed cmd = ''spy''
              then (if length list > 1
                    then (let sender = trimmed (list ! 1)
                          in if sender \<in> set (senders st)
                             then (case replace (clients st) (index client)
                                          (client\<lparr>Sender := sender, mode := 1\<rparr>) of
                                     Inl e \<Rightarrow> Inl e
                                   | Inr cs \<Rightarrow> Inr (st\<lparr>clients := cs\<rparr>, []))
                             else Inr (st, [messageToClient_signal
                                              ([NL] @ ''Sender not found: '' @ sender
                                               @ getPrompt sd st) sd]))
                    else Inr (st, []))
              else if trimmed cmd = ''exit''
              then Inr (st, [messageToClient_signal cmd sd])
              else if trimmed cmd = ''list''
              then Inr (st, [messageToClient_signal
                               (list_from 0 [NL] (senders st) @ getPrompt sd st) sd])
              else if trimmed cmd = ''ping''
              then Inr (st, [messageToClient_signal ''pong'' sd])
              else if trimmed cmd = ''help''
              then Inr (st, [messageToClient_signal
                               ([NL] @ getHelpString @ getPrompt sd st) sd])
              else if trimmed cmd = [] then Inl IndexOutOfRange
              else if trimmed cmd ! 0 = CHR ''@''
              then (let sender = drop 1 (trimmed cmd);
                        cmd1 = trimmed (join (tl list))
                    in if sender \<in> set (senders st)
                       then (case replace (clients st) (index client)
                                    (client\<lparr>Sender := sender, mode := 1\<rparr>) of
                               Inl e \<Rightarrow> Inl e
                             | Inr cs \<Rightarrow>
                                 Inr (st\<lparr>clients := cs\<rparr>, [commandToSender_signal cmd1 sender]))
                       else Inr (st, [messageToClient_signal
                                        ([NL] @ ''Sender not found: '' @ sender
                                         @ getPrompt sd st) sd]))
              else if index client > - 1
              then Inr (st, [messageToClient_signal cmd sd])
              else Inr (st, []))"

subsection \<open>The public methods\<close>

text \<open>
  Each public method locks the mutex, calls one private method and unlocks;
  \<open>postMessage\<close> above composes the text itself.
\<close>

definition addClient :: "int \<Rightarrow> MsgCenter \<Rightarrow> MsgCenter \<times> signal list" where
  "addClient sd st = registerClient sd st"

definition removeClient :: "int \<Rightarrow> MsgCenter \<Rightarrow> MsgCenter" where
  "removeClient sd st = unregisterClient sd st"

definition addSender :: "string \<Rightarrow> MsgCenter \<Rightarrow> MsgCenter" where
  "addSender sender st = registerMessageSender sender st"

definition removeSender :: "string \<Rightarrow> MsgCenter \<Rightarrow> MsgCenter" where
  "removeSender sender st = unregisterMessageSender sender st"

definition sendCommand :: "string \<Rightarrow> int \<Rightarrow> MsgCenter \<Rightarrow> error + MsgCenter \<times> signal list" where
  "sendCommand cmd sd st = processCommand cmd sd st"

text \<open>
  The states of a message center: the constructed one, and every state a public method
  leaves behind when it returns.
\<close>

inductive reachable :: "MsgCenter \<Rightarrow> bool" where
  constructed: "reachable SCDMsgCenter"
| after_addClient: "reachable st \<Longrightarrow> reachable (fst (addClient sd st))"
| after_removeClient: "reachable st \<Longrightarrow> reachable (removeClient sd st)"
| after_addSender: "reachable st \<Longrightarrow> reachable (addSender sender st)"
| after_removeSender: "reachable st \<Longrightarrow> reachable (removeSender sender st)"
| after_sendCommand:
    "reachable st \<Longrightarrow> sendCommand cmd sd st = Inr (st', out) \<Longrightarrow> reachable st'"
| after_postMessage: "reachable st \<Longrightarrow> reachable (fst (postMessage msg sender p st))"

text \<open>
  The first token of a line as the specification words it, delimited by white space of
  any kind. It is compared with the token \<open>processCommand\<close> echoes.
\<close>

definition first_whitespace_token :: "string \<Rightarrow> string" where
  "first_whitespace_token line = takeWhile (\<lambda>c. \<not> isSpace c) (dropWhile isSpace line)"

section \<open>Lemmas\<close>

subsection \<open>The lookup\<close>

lemma getClient_from_absent:
  "(\<And>i. n \<le> i \<Longrightarrow> i < length cs \<Longrightarrow> socketDescriptor (cs ! i) \<noteq> sd)
   \<Longrightarrow> getClient_from n sd cs = Client_default\<lparr>index := - 1\<rparr>"
proof (induction n sd cs rule: getClient_from.induct)
  case (1 n sd cs)
  show ?case
  proof (cases "n < length cs")
    case True
    with "1.prems" have ne: "socketDescriptor (cs ! n) \<noteq> sd" by simp
    have "getClient_from (Suc n) sd cs = Client_default\<lparr>index := - 1\<rparr>"
      using True ne "1.prems" by (intro "1.IH") simp_all
    with True ne show ?thesis by (subst getClient_from.simps) simp
  next
    case False
    then show ?thesis by (subst getClient_from.simps) simp
  qed
qed

lemma getClient_from_first:
  "n \<le> k \<Longrightarrow> k < length cs \<Longrightarrow> socketDescriptor (cs ! k) = sd
   \<Longrightarrow> (\<And>i. n \<le> i \<Longrightarrow> i < k \<Longrightarrow> socketDescriptor (cs ! i) \<noteq> sd)
   \<Longrightarrow> getClient_from n sd cs = (cs ! k)\<lparr>index := int k\<rparr>"
proof (induction n sd cs rule: getClient_from.induct)
  case (1 n sd cs)
  show ?case
  proof (cases "n = k")
    case True
    with "1.prems" show ?thesis by (subst getClient_from.simps) simp
  next
    case False
    with "1.prems" have lt: "n < k" and ne: "socketDescriptor (cs ! n) \<noteq> sd" by simp_all
    have "getClient_from (Suc n) sd cs = (cs ! k)\<lparr>index := int k\<rparr>"
      using lt ne "1.prems" by (intro "1.IH") simp_all
    with lt ne "1.prems" show ?thesis by (subst getClient_from.simps) simp
  qed
qed

lemma getClient_absent:
  assumes "sd \<notin> socketDescriptor ` set (clients st)"
  shows "getClient sd st = Client_default\<lparr>index := - 1\<rparr>"
  unfolding getClient_def
  using assms by (intro getClient_from_absent) (auto simp: image_iff)

lemma getClient_found:
  assumes "sd \<in> socketDescriptor ` set (clients st)"
  shows "\<exists>k<length (clients st). socketDescriptor (clients st ! k) = sd
           \<and> (\<forall>i<k. socketDescriptor (clients st ! i) \<noteq> sd)
           \<and> getClient sd st = (clients st ! k)\<lparr>index := int k\<rparr>"
proof -
  let ?P = "\<lambda>k. k < length (clients st) \<and> socketDescriptor (clients st ! k) = sd"
  from assms obtain j where j: "?P j" by (auto simp: in_set_conv_nth)
  define k where "k = (LEAST k. ?P k)"
  have Pk: "?P k" unfolding k_def using j by (rule LeastI)
  have least: "\<not> ?P i" if "i < k" for i
    using that unfolding k_def by (rule not_less_Least)
  have before: "socketDescriptor (clients st ! i) \<noteq> sd" if "i < k" for i
    using least[OF that] that Pk by simp
  have "getClient sd st = (clients st ! k)\<lparr>index := int k\<rparr>"
    unfolding getClient_def using Pk before by (intro getClient_from_first) simp_all
  with Pk before show ?thesis by blast
qed

lemma index_getClient_absent:
  "sd \<notin> socketDescriptor ` set (clients st) \<Longrightarrow> index (getClient sd st) = - 1"
  by (simp add: getClient_absent)

lemma index_getClient_found:
  assumes "sd \<in> socketDescriptor ` set (clients st)"
  shows "0 \<le> index (getClient sd st) \<and> index (getClient sd st) < int (length (clients st))"
  using getClient_found[OF assms] by auto

lemma index_getClient_iff:
  "index (getClient sd st) = - 1 \<longleftrightarrow> sd \<notin> socketDescriptor ` set (clients st)"
  using index_getClient_absent[of sd st] index_getClient_found[of sd st] by auto

lemma socketDescriptor_getClient:
  assumes "sd \<in> socketDescriptor ` set (clients st)"
  shows "socketDescriptor (getClient sd st) = sd"
  using getClient_found[OF assms] by auto


lemma map_socketDescriptor_list_update:
  assumes "sd \<in> socketDescriptor ` set (clients st)" and "socketDescriptor c = sd"
  shows "map socketDescriptor ((clients st)[nat (index (getClient sd st)) := c])
         = map socketDescriptor (clients st)"
proof -
  from getClient_found[OF assms(1)] obtain k where k: "k < length (clients st)"
    and hit: "socketDescriptor (clients st ! k) = sd"
    and before: "\<forall>i<k. socketDescriptor (clients st ! i) \<noteq> sd"
    and eq: "getClient sd st = (clients st ! k)\<lparr>index := int k\<rparr>"
    by blast
  from k hit assms(2) have "(map socketDescriptor (clients st))[k := socketDescriptor c]
      = map socketDescriptor (clients st)"
    by (simp add: list_update_same_conv)
  with eq show ?thesis by (simp add: map_update)
qed

lemma replace_getClient:
  assumes "sd \<in> socketDescriptor ` set (clients st)"
  shows "replace (clients st) (index (getClient sd st)) c
         = Inr ((clients st)[nat (index (getClient sd st)) := c])"
  using index_getClient_found[OF assms] by (simp add: replace_def)

lemma replace_absent:
  assumes "sd \<notin> socketDescriptor ` set (clients st)"
  shows "replace (clients st) (index (getClient sd st)) c = Inl IndexOutOfRange"
  using index_getClient_absent[OF assms] by (simp add: replace_def)

lemma getPrompt_found:
  assumes "sd \<in> socketDescriptor ` set (clients st)"
  shows "getPrompt sd st = [NL] @ name (getClient sd st) @ '':> ''"
  using index_getClient_found[OF assms] by (simp add: getPrompt_def Let_def)

lemma getPrompt_absent:
  assumes "sd \<notin> socketDescriptor ` set (clients st)"
  shows "getPrompt sd st = []"
  using index_getClient_absent[OF assms] by (simp add: getPrompt_def Let_def)

subsection \<open>The loops\<close>

lemma processMessage_from_eq:
  "processMessage_from n msg sender cs =
     map (\<lambda>c. messageToClient_signal msg (socketDescriptor c))
       (filter (\<lambda>c. Sender c = sender \<and> mode c = 1) (drop n cs))"
proof (induction n msg sender cs rule: processMessage_from.induct)
  case (1 n msg sender cs)
  show ?case
  proof (cases "n < length cs")
    case True
    then have "drop n cs = cs ! n # drop (Suc n) cs"
      by (simp add: Cons_nth_drop_Suc)
    with True "1.IH" show ?thesis
      by (subst processMessage_from.simps) simp
  next
    case False
    then show ?thesis by (subst processMessage_from.simps) simp
  qed
qed

lemma list_from_eq:
  "list_from n msg ss = msg @ concat (map (\<lambda>s. ''   - '' @ s @ [NL]) (drop n ss))"
proof (induction n msg ss rule: list_from.induct)
  case (1 n msg ss)
  show ?case
  proof (cases "n < length ss")
    case True
    then have "drop n ss = ss ! n # drop (Suc n) ss"
      by (simp add: Cons_nth_drop_Suc)
    with True "1.IH" show ?thesis
      by (subst list_from.simps) simp
  next
    case False
    then show ?thesis by (subst list_from.simps) simp
  qed
qed

subsection \<open>The branches of the dispatch\<close>

lemma trimmed_line_end: "trimmed [NL] = []" "trimmed [CR, NL] = []"
  by (simp_all add: trimmed_def isSpace_def)

lemma not_line_end:
  assumes "trimmed cmd \<noteq> []"
  shows "\<not> (cmd = [CR, NL] \<or> cmd = [NL])"
  using assms trimmed_line_end by auto

lemma line_end_dispatch:
  assumes tokens: "split_SkipEmptyParts line = tok # args"
    and verb: "toLower tok = [CR, NL] \<or> toLower tok = [NL]"
  shows "processCommand line sd st =
     (case replace (clients st) (index (getClient sd st)) ((getClient sd st)\<lparr>mode := 0\<rparr>) of
        Inl e \<Rightarrow> Inl e
      | Inr cs \<Rightarrow>
          Inr (st\<lparr>clients := cs\<rparr>,
               [messageToClient_signal
                  ([NL] @ getHelpString @ getPrompt sd (st\<lparr>clients := cs\<rparr>)) sd]))"
  using verb by (simp add: processCommand_def Let_def tokens split: sum.splits)

lemma spy_dispatch:
  assumes tokens: "split_SkipEmptyParts line = verb # arg # others"
    and verb: "trimmed (toLower verb) = ''spy''"
  shows "processCommand line sd st =
     (if trimmed arg \<in> set (senders st)
      then (case replace (clients st) (index (getClient sd st))
                   ((getClient sd st)\<lparr>Sender := trimmed arg, mode := 1\<rparr>) of
              Inl e \<Rightarrow> Inl e
            | Inr cs \<Rightarrow> Inr (st\<lparr>clients := cs\<rparr>, []))
      else Inr (st, [messageToClient_signal
                       ([NL] @ ''Sender not found: '' @ trimmed arg @ getPrompt sd st) sd]))"
proof -
  from verb have "trimmed (toLower verb) \<noteq> []" by simp
  then have "\<not> (toLower verb = [CR, NL] \<or> toLower verb = [NL])"
    by (rule not_line_end)
  then show ?thesis
    by (simp add: processCommand_def Let_def tokens verb)
qed

lemma at_dispatch:
  assumes tokens: "split_SkipEmptyParts line = tok # args"
    and verb: "trimmed (toLower tok) = CHR ''@'' # s"
  shows "processCommand line sd st =
     (if s \<in> set (senders st)
      then (case replace (clients st) (index (getClient sd st))
                   ((getClient sd st)\<lparr>Sender := s, mode := 1\<rparr>) of
              Inl e \<Rightarrow> Inl e
            | Inr cs \<Rightarrow>
                Inr (st\<lparr>clients := cs\<rparr>, [commandToSender_signal (trimmed (join args)) s]))
      else Inr (st, [messageToClient_signal
                       ([NL] @ ''Sender not found: '' @ s @ getPrompt sd st) sd]))"
proof -
  from verb have "trimmed (toLower tok) \<noteq> []" by simp
  then have "\<not> (toLower tok = [CR, NL] \<or> toLower tok = [NL])"
    by (rule not_line_end)
  then show ?thesis
    by (simp add: processCommand_def Let_def tokens verb)
qed

lemma list_dispatch:
  assumes tokens: "split_SkipEmptyParts line = tok # args"
    and verb: "trimmed (toLower tok) = ''list''"
  shows "processCommand line sd st =
     Inr (st, [messageToClient_signal
                 ([NL] @ concat (map (\<lambda>s. ''   - '' @ s @ [NL]) (senders st))
                  @ getPrompt sd st) sd])"
proof -
  from verb have "trimmed (toLower tok) \<noteq> []" by simp
  then have "\<not> (toLower tok = [CR, NL] \<or> toLower tok = [NL])"
    by (rule not_line_end)
  then show ?thesis
    by (simp add: processCommand_def Let_def tokens verb list_from_eq)
qed

lemma echo_dispatch:
  assumes tokens: "split_SkipEmptyParts line = tok # args"
    and unknown: "trimmed (toLower tok) \<notin> {''spy'', ''exit'', ''list'', ''ping'', ''help''}"
    and nonempty: "trimmed (toLower tok) \<noteq> []"
    and no_at: "trimmed (toLower tok) ! 0 \<noteq> CHR ''@''"
  shows "processCommand line sd st =
     (if index (getClient sd st) > - 1
      then Inr (st, [messageToClient_signal (toLower tok) sd]) else Inr (st, []))"
proof -
  from nonempty have "\<not> (toLower tok = [CR, NL] \<or> toLower tok = [NL])"
    by (rule not_line_end)
  with unknown nonempty no_at show ?thesis
    by (simp add: processCommand_def Let_def tokens)
qed

subsection \<open>What every reachable state satisfies\<close>

lemma distinct_map_removeAt:
  assumes "distinct (map f xs)"
  shows "distinct (map f (removeAt xs i))"
proof (cases "0 \<le> i \<and> i < int (length xs)")
  case True
  then have k: "nat i < length xs" by (simp add: nat_less_iff)
  from assms have "distinct (map f (take (nat i) xs @ xs ! nat i # drop (Suc (nat i)) xs))"
    by (simp only: id_take_nth_drop[OF k, symmetric])
  then have "distinct (map f (take (nat i) xs @ drop (Suc (nat i)) xs))"
    by auto
  with True show ?thesis by (simp add: removeAt_def)
next
  case False
  then have "removeAt xs i = xs" by (auto simp: removeAt_def)
  with assms show ?thesis by simp
qed

lemma fst_registerClient:
  "fst (registerClient sd st) =
     (if sd \<in> socketDescriptor ` set (clients st) then st
      else st\<lparr>clients := clients st @
             [Client_default\<lparr>index := - 1, socketDescriptor := sd,
                name := ''Host-'' @ number sd, user := ''Anonymous'', admin := 0,
                mode := 0\<rparr>]\<rparr>)"
proof (cases "sd \<in> socketDescriptor ` set (clients st)")
  case True
  then have "index (getClient sd st) \<noteq> - 1" by (simp add: index_getClient_iff)
  with True show ?thesis by (simp add: registerClient_def Let_def)
next
  case False
  then show ?thesis by (simp add: registerClient_def Let_def getClient_absent)
qed

lemma replace_keeps_descriptors:
  assumes "replace (clients st) (index (getClient sd st)) c = Inr cs"
    and "socketDescriptor c = socketDescriptor (getClient sd st)"
  shows "map socketDescriptor cs = map socketDescriptor (clients st)"
proof (cases "sd \<in> socketDescriptor ` set (clients st)")
  case True
  from assms(2) have "socketDescriptor c = sd"
    by (simp add: socketDescriptor_getClient[OF True])
  from map_socketDescriptor_list_update[OF True this] assms(1) show ?thesis
    by (simp add: replace_getClient[OF True])
next
  case False
  with assms(1) show ?thesis by (simp add: replace_absent)
qed

lemma processCommand_frame:
  assumes "processCommand cmd sd st = Inr (st', out)"
  shows "senders st' = senders st
     \<and> map socketDescriptor (clients st') = map socketDescriptor (clients st)"
  using assms
  by (auto simp: processCommand_def Let_def split: if_splits sum.splits
      dest!: replace_keeps_descriptors)

lemma reachable_distinct:
  assumes "reachable st"
  shows "distinct (senders st) \<and> distinct (map socketDescriptor (clients st))"
  using assms
proof (induction rule: reachable.induct)
  case constructed
  show ?case by (simp add: SCDMsgCenter_def)
next
  case (after_addClient st sd)
  then show ?case by (auto simp: addClient_def fst_registerClient)
next
  case (after_removeClient st sd)
  then show ?case
    by (simp add: removeClient_def unregisterClient_def Let_def distinct_map_removeAt)
next
  case (after_addSender st sender)
  then show ?case by (simp add: addSender_def registerMessageSender_def)
next
  case (after_removeSender st sender)
  then show ?case by (simp add: removeSender_def unregisterMessageSender_def)
next
  case (after_sendCommand st cmd sd st' out)
  from after_sendCommand.hyps(2) have "processCommand cmd sd st = Inr (st', out)"
    by (simp add: sendCommand_def)
  from processCommand_frame[OF this] after_sendCommand.IH show ?case by simp
next
  case (after_postMessage st msg sender p)
  then show ?case by (simp add: postMessage_def processMessage_def Let_def)
qed

lemma count_list_distinct:
  "distinct xs \<Longrightarrow> count_list xs x = (if x \<in> set xs then 1 else 0)"
  by (induction xs) auto

lemma filter_descriptor_distinct:
  "distinct (map socketDescriptor cs) \<Longrightarrow> c \<in> set cs
   \<Longrightarrow> filter (\<lambda>d. socketDescriptor d = socketDescriptor c) cs = [c]"
proof (induction cs)
  case Nil
  then show ?case by simp
next
  case (Cons a cs)
  show ?case
  proof (cases "a = c")
    case True
    from Cons.prems(1) have "\<forall>d \<in> set cs. socketDescriptor d \<noteq> socketDescriptor a"
      by (auto simp: image_iff)
    then have "filter (\<lambda>d. socketDescriptor d = socketDescriptor a) cs = []"
      by (simp add: filter_empty_conv)
    with True show ?thesis by simp
  next
    case False
    with Cons.prems have "c \<in> set cs" and "socketDescriptor a \<noteq> socketDescriptor c"
      by (auto simp: image_iff)
    with Cons show ?thesis by simp
  qed
qed

lemma unregisterClient_removes_first:
  "clients (unregisterClient sd st) =
     takeWhile (\<lambda>c. socketDescriptor c \<noteq> sd) (clients st)
     @ drop 1 (dropWhile (\<lambda>c. socketDescriptor c \<noteq> sd) (clients st))"
proof (cases "sd \<in> socketDescriptor ` set (clients st)")
  case True
  from getClient_found[OF True] obtain k where k: "k < length (clients st)"
    and hit: "socketDescriptor (clients st ! k) = sd"
    and before: "\<forall>i<k. socketDescriptor (clients st ! i) \<noteq> sd"
    and eq: "getClient sd st = (clients st ! k)\<lparr>index := int k\<rparr>"
    by blast
  have tw: "takeWhile (\<lambda>c. socketDescriptor c \<noteq> sd) (clients st) = take k (clients st)"
    using k hit before by (intro takeWhile_eq_take_P_nth) simp_all
  then have "length (takeWhile (\<lambda>c. socketDescriptor c \<noteq> sd) (clients st)) = k"
    using k by simp
  then have dw: "dropWhile (\<lambda>c. socketDescriptor c \<noteq> sd) (clients st) = drop k (clients st)"
    by (simp add: dropWhile_eq_drop)
  from k eq show ?thesis
    by (simp add: unregisterClient_def Let_def removeAt_def tw dw)
next
  case False
  then have all: "\<forall>c \<in> set (clients st). socketDescriptor c \<noteq> sd" by auto
  from False have idx: "index (getClient sd st) = - 1" by (rule index_getClient_absent)
  from all
  have tw: "takeWhile (\<lambda>c. socketDescriptor c \<noteq> sd) (clients st) = clients st"
    and dw: "dropWhile (\<lambda>c. socketDescriptor c \<noteq> sd) (clients st) = []"
    by simp_all
  show ?thesis
    unfolding tw dw by (simp add: unregisterClient_def Let_def idx)
qed

section \<open>C1: publishing\<close>

text \<open>
  C1. \<open>postMessage\<close> of the text \<open>t\<close> under the sender id \<open>s\<close> leaves the state as it
  is and emits one \<open>messageToClient_signal\<close> for each session record whose mode is 1
  (spying) and whose \<open>Sender\<close> is \<open>s\<close>, in the order of the list \<open>clients\<close>. The text
  of each is \<open>s @ '': '' @ t\<close>, after one newline when the flag is set. The list
  \<open>senders\<close> is not read: when no session subscribes to \<open>s\<close>, registered or not,
  nothing is emitted. The order of \<open>clients\<close> is the order in which the sessions were
  inserted: \<open>registerClient\<close> appends a new session at the end of the list and leaves
  the list alone for a known one, a command keeps every descriptor at its position, and
  \<open>unregisterClient\<close> takes out the first record with the descriptor and keeps the
  others in their order.
\<close>

theorem postMessage_delivery:
  "postMessage t s p st =
     (st, map (\<lambda>c. messageToClient_signal ((if p then [NL] else []) @ s @ '': '' @ t)
                  (socketDescriptor c))
            (filter (\<lambda>c. mode c = 1 \<and> Sender c = s) (clients st)))
   \<and> ((\<forall>c \<in> set (clients st). \<not> (mode c = 1 \<and> Sender c = s))
        \<longrightarrow> snd (postMessage t s p st) = [])
   \<and> (sd \<notin> socketDescriptor ` set (clients st) \<longrightarrow>
        clients (fst (registerClient sd st)) =
          clients st @ [Client_default\<lparr>index := - 1, socketDescriptor := sd,
                          name := ''Host-'' @ number sd, user := ''Anonymous'', admin := 0,
                          mode := 0\<rparr>])
   \<and> (sd \<in> socketDescriptor ` set (clients st) \<longrightarrow>
        clients (fst (registerClient sd st)) = clients st)
   \<and> (processCommand cmd sd st = Inr (st', out) \<longrightarrow>
        map socketDescriptor (clients st') = map socketDescriptor (clients st))
   \<and> clients (unregisterClient sd st) =
        takeWhile (\<lambda>c. socketDescriptor c \<noteq> sd) (clients st)
        @ drop 1 (dropWhile (\<lambda>c. socketDescriptor c \<noteq> sd) (clients st))"
proof -
  have same: "(\<lambda>c. Sender c = s \<and> mode c = 1) = (\<lambda>c. mode c = 1 \<and> Sender c = s)"
    by auto
  have eq: "postMessage t s p st =
     (st, map (\<lambda>c. messageToClient_signal ((if p then [NL] else []) @ s @ '': '' @ t)
                  (socketDescriptor c))
            (filter (\<lambda>c. mode c = 1 \<and> Sender c = s) (clients st)))"
    by (simp add: postMessage_def processMessage_def processMessage_from_eq LF_def same)
  have nobody: "snd (postMessage t s p st) = []"
    if "\<forall>c \<in> set (clients st). \<not> (mode c = 1 \<and> Sender c = s)"
  proof -
    from that have "filter (\<lambda>c. mode c = 1 \<and> Sender c = s) (clients st) = []"
      by (simp add: filter_empty_conv)
    with eq show ?thesis by simp
  qed
  have appended: "clients (fst (registerClient sd st)) =
      clients st @ [Client_default\<lparr>index := - 1, socketDescriptor := sd,
                      name := ''Host-'' @ number sd, user := ''Anonymous'', admin := 0,
                      mode := 0\<rparr>]"
    if "sd \<notin> socketDescriptor ` set (clients st)"
    using that by (simp add: fst_registerClient)
  have kept: "clients (fst (registerClient sd st)) = clients st"
    if "sd \<in> socketDescriptor ` set (clients st)"
    using that by (simp add: fst_registerClient)
  have places: "map socketDescriptor (clients st') = map socketDescriptor (clients st)"
    if "processCommand cmd sd st = Inr (st', out)"
    using processCommand_frame[OF that] by simp
  from eq nobody appended kept places unregisterClient_removes_first[of sd st]
  show ?thesis by blast
qed

theorem postMessage_delivery_witness:
  "(case processCommand ''spy A'' 3 (registerMessageSender ''A'' (fst (registerClient 3 (fst (registerClient 2
        (fst (registerClient 1 SCDMsgCenter))))))) of
      Inl e \<Rightarrow> []
    | Inr (s1, o1) \<Rightarrow>
        (case processCommand ''spy A'' 1 s1 of
           Inl e \<Rightarrow> []
         | Inr (s2, o2) \<Rightarrow>
             (case processCommand ''spy A'' 2 s2 of
                Inl e \<Rightarrow> []
              | Inr (s3, o3) \<Rightarrow> snd (postMessage ''hi'' ''A'' False s3))))
   = [messageToClient_signal ''A: hi'' 1, messageToClient_signal ''A: hi'' 2,
      messageToClient_signal ''A: hi'' 3]
   \<and> snd (postMessage ''hi'' ''ghost'' True (registerMessageSender ''A'' (fst (registerClient 3 (fst (registerClient 2
        (fst (registerClient 1 SCDMsgCenter)))))))) = []
   \<and> clients (fst (registerClient 2 (fst (registerClient 1 SCDMsgCenter)))) =
        [\<lparr>socketDescriptor = 1, name = ''Host-1'', user = ''Anonymous'', admin = 0,
          mode = 0, Sender = [], index = - 1\<rparr>,
         \<lparr>socketDescriptor = 2, name = ''Host-2'', user = ''Anonymous'', admin = 0,
          mode = 0, Sender = [], index = - 1\<rparr>]"
proof -
  let ?V = "fst (registerClient 1 SCDMsgCenter)"
  let ?W0 = "\<lparr>clients =
        [\<lparr>socketDescriptor = 1, name = ''Host-1'', user = ''Anonymous'', admin = 0,
          mode = 0, Sender = [], index = - 1\<rparr>,
         \<lparr>socketDescriptor = 2, name = ''Host-2'', user = ''Anonymous'', admin = 0,
          mode = 0, Sender = [], index = - 1\<rparr>,
         \<lparr>socketDescriptor = 3, name = ''Host-3'', user = ''Anonymous'', admin = 0,
          mode = 0, Sender = [], index = - 1\<rparr>],
      senders = [''A'']\<rparr>"
  let ?S1 = "\<lparr>clients =
        [\<lparr>socketDescriptor = 1, name = ''Host-1'', user = ''Anonymous'', admin = 0,
          mode = 0, Sender = [], index = - 1\<rparr>,
         \<lparr>socketDescriptor = 2, name = ''Host-2'', user = ''Anonymous'', admin = 0,
          mode = 0, Sender = [], index = - 1\<rparr>,
         \<lparr>socketDescriptor = 3, name = ''Host-3'', user = ''Anonymous'', admin = 0,
          mode = 1, Sender = ''A'', index = 2\<rparr>],
      senders = [''A'']\<rparr>"
  let ?S2 = "\<lparr>clients =
        [\<lparr>socketDescriptor = 1, name = ''Host-1'', user = ''Anonymous'', admin = 0,
          mode = 1, Sender = ''A'', index = 0\<rparr>,
         \<lparr>socketDescriptor = 2, name = ''Host-2'', user = ''Anonymous'', admin = 0,
          mode = 0, Sender = [], index = - 1\<rparr>,
         \<lparr>socketDescriptor = 3, name = ''Host-3'', user = ''Anonymous'', admin = 0,
          mode = 1, Sender = ''A'', index = 2\<rparr>],
      senders = [''A'']\<rparr>"
  let ?S3 = "\<lparr>clients =
        [\<lparr>socketDescriptor = 1, name = ''Host-1'', user = ''Anonymous'', admin = 0,
          mode = 1, Sender = ''A'', index = 0\<rparr>,
         \<lparr>socketDescriptor = 2, name = ''Host-2'', user = ''Anonymous'', admin = 0,
          mode = 1, Sender = ''A'', index = 1\<rparr>,
         \<lparr>socketDescriptor = 3, name = ''Host-3'', user = ''Anonymous'', admin = 0,
          mode = 1, Sender = ''A'', index = 2\<rparr>],
      senders = [''A'']\<rparr>"
  have W0: "(registerMessageSender ''A'' (fst (registerClient 3 (fst (registerClient 2
        (fst (registerClient 1 SCDMsgCenter))))))) = ?W0"
    by code_simp
  have V: "clients ?V = [\<lparr>socketDescriptor = 1, name = ''Host-1'', user = ''Anonymous'', admin = 0,
          mode = 0, Sender = [], index = - 1\<rparr>]"
    by code_simp
  have n2: "number 2 = ''2''" by code_simp
  have c1: "processCommand ''spy A'' 3 ?W0 = Inr (?S1, [])" by code_simp
  have c2: "processCommand ''spy A'' 1 ?S1 = Inr (?S2, [])" by code_simp
  have c3: "processCommand ''spy A'' 2 ?S2 = Inr (?S3, [])" by code_simp
  have absent: "2 \<notin> socketDescriptor ` set (clients ?V)" by (simp add: V)
  have nobody: "\<forall>c \<in> set (clients ?W0). \<not> (mode c = 1 \<and> Sender c = ''ghost'')"
    by simp
  from postMessage_delivery[where t = "''hi''" and s = "''A''" and p = False and st = ?S3]
  have d1: "snd (postMessage ''hi'' ''A'' False ?S3)
      = [messageToClient_signal ''A: hi'' 1, messageToClient_signal ''A: hi'' 2,
         messageToClient_signal ''A: hi'' 3]"
    by simp
  from postMessage_delivery[where t = "''hi''" and s = "''ghost''" and p = True
      and st = ?W0 and sd = 3 and cmd = "''spy A''" and st' = ?S1 and out = "[]"] nobody c1
  have d2: "snd (postMessage ''hi'' ''ghost'' True ?W0) = []"
    and "map socketDescriptor (clients ?S1) = map socketDescriptor (clients ?W0)"
    by blast+
  from postMessage_delivery[where st = ?V and sd = 2] absent
  have "clients (fst (registerClient 2 ?V)) =
      clients ?V @ [Client_default\<lparr>index := - 1, socketDescriptor := 2,
                      name := ''Host-'' @ number 2, user := ''Anonymous'', admin := 0,
                      mode := 0\<rparr>]"
    by blast
  then have d3: "clients (fst (registerClient 2 ?V)) =
        [\<lparr>socketDescriptor = 1, name = ''Host-1'', user = ''Anonymous'', admin = 0,
          mode = 0, Sender = [], index = - 1\<rparr>,
         \<lparr>socketDescriptor = 2, name = ''Host-2'', user = ''Anonymous'', admin = 0,
          mode = 0, Sender = [], index = - 1\<rparr>]"
    by (simp add: V n2 Client_default_def)
  from d1 d2 d3 show ?thesis
    by (simp add: W0 c1 c2 c3)
qed

section \<open>C2: lines without a token\<close>

text \<open>
  C2 fails on the code. \<open>processCommand\<close> reads \<open>list[0]\<close> with no check that the
  token list is not empty, and \<open>cmd.trimmed().at(0)\<close> with no check that the trimmed
  token is not empty. The empty line and a line of spaces have no token; a tab or a
  carriage return alone is a token that trims to the empty string. On each of them the
  dispatch reads out of range, for every session and state, and never reaches the
  carriage-return branch.
\<close>

theorem empty_line_out_of_range:
  "processCommand [] sd st = Inl IndexOutOfRange
   \<and> processCommand ''   '' sd st = Inl IndexOutOfRange
   \<and> processCommand [CHR 0x09] sd st = Inl IndexOutOfRange
   \<and> processCommand [CR] sd st = Inl IndexOutOfRange"
proof -
  have "processCommand [] sd st = Inl IndexOutOfRange"
    unfolding processCommand_def by code_simp
  moreover have "processCommand ''   '' sd st = Inl IndexOutOfRange"
    unfolding processCommand_def by code_simp
  moreover have "processCommand [CHR 0x09] sd st = Inl IndexOutOfRange"
    unfolding processCommand_def by code_simp
  moreover have "processCommand [CR] sd st = Inl IndexOutOfRange"
    unfolding processCommand_def by code_simp
  ultimately show ?thesis by simp
qed

theorem empty_line_out_of_range_witness:
  "processCommand [] 42
     \<lparr>clients = [\<lparr>socketDescriptor = 42, name = ''Host-42'', user = ''Anonymous'',
                  admin = 0, mode = 0, Sender = [], index = - 1\<rparr>],
      senders = []\<rparr> = Inl IndexOutOfRange"
  using empty_line_out_of_range[of 42
     "\<lparr>clients = [\<lparr>socketDescriptor = 42, name = ''Host-42'', user = ''Anonymous'',
                  admin = 0, mode = 0, Sender = [], index = - 1\<rparr>],
      senders = []\<rparr>"]
  by simp

section \<open>C3: commands of an unknown session\<close>

text \<open>
  C3 fails on the code. For a socket descriptor with no session record \<open>getClient\<close>
  does return a record with \<open>index = -1\<close>, but only the echo branch and \<open>getPrompt\<close>
  test it. The carriage-return branch, the \<open>spy\<close> branch (for a registered sender) and
  the \<open>@\<close> branch (for a registered sender) call \<open>clients.replace(client.index, client)\<close>
  with the index -1: a write out of range.
\<close>

theorem unknown_session_replace_out_of_range:
  assumes absent: "sd \<notin> socketDescriptor ` set (clients st)"
  shows "index (getClient sd st) = - 1
     \<and> processCommand [NL] sd st = Inl IndexOutOfRange
     \<and> processCommand [CR, NL] sd st = Inl IndexOutOfRange
     \<and> (split_SkipEmptyParts line = verb # arg # others \<and> trimmed (toLower verb) = ''spy''
          \<and> trimmed arg \<in> set (senders st)
        \<longrightarrow> processCommand line sd st = Inl IndexOutOfRange)
     \<and> (split_SkipEmptyParts line = tok # args \<and> trimmed (toLower tok) = CHR ''@'' # s
          \<and> s \<in> set (senders st)
        \<longrightarrow> processCommand line sd st = Inl IndexOutOfRange)"
proof -
  have t1: "split_SkipEmptyParts [NL] = [NL] # []" by code_simp
  have l1: "toLower [NL] = [CR, NL] \<or> toLower [NL] = [NL]" by code_simp
  have t2: "split_SkipEmptyParts [CR, NL] = [CR, NL] # []" by code_simp
  have l2: "toLower [CR, NL] = [CR, NL] \<or> toLower [CR, NL] = [NL]" by code_simp
  have "processCommand [NL] sd st = Inl IndexOutOfRange"
    by (simp add: line_end_dispatch[OF t1 l1] replace_absent[OF absent])
  moreover have "processCommand [CR, NL] sd st = Inl IndexOutOfRange"
    by (simp add: line_end_dispatch[OF t2 l2] replace_absent[OF absent])
  moreover have "processCommand line sd st = Inl IndexOutOfRange"
    if "split_SkipEmptyParts line = verb # arg # others"
      and "trimmed (toLower verb) = ''spy''" and "trimmed arg \<in> set (senders st)"
    using that(3) by (simp add: spy_dispatch[OF that(1,2)] replace_absent[OF absent])
  moreover have "processCommand line sd st = Inl IndexOutOfRange"
    if "split_SkipEmptyParts line = tok # args"
      and "trimmed (toLower tok) = CHR ''@'' # s" and "s \<in> set (senders st)"
    using that(3) by (simp add: at_dispatch[OF that(1,2)] replace_absent[OF absent])
  ultimately show ?thesis
    using index_getClient_absent[OF absent] by blast
qed

theorem unknown_session_replace_out_of_range_witness:
  "index (getClient 7 \<lparr>clients = [], senders = [''a'']\<rparr>) = - 1
   \<and> processCommand [NL] 7 \<lparr>clients = [], senders = [''a'']\<rparr> = Inl IndexOutOfRange
   \<and> processCommand ''spy a'' 7 \<lparr>clients = [], senders = [''a'']\<rparr> = Inl IndexOutOfRange
   \<and> processCommand ''@a status'' 7 \<lparr>clients = [], senders = [''a'']\<rparr> = Inl IndexOutOfRange"
  (is "index (getClient 7 ?W) = _ \<and> _")
proof -
  have absent: "7 \<notin> socketDescriptor ` set (clients ?W)" by simp
  have t1: "split_SkipEmptyParts ''spy a'' = ''spy'' # ''a'' # []" by code_simp
  have v1: "trimmed (toLower ''spy'') = ''spy''" by code_simp
  have a1: "trimmed ''a'' \<in> set (senders ?W)" by code_simp
  have t2: "split_SkipEmptyParts ''@a status'' = ''@a'' # [''status'']" by code_simp
  have v2: "trimmed (toLower ''@a'') = CHR ''@'' # ''a''" by code_simp
  have a2: "''a'' \<in> set (senders ?W)" by simp
  from unknown_session_replace_out_of_range[OF absent,
      of "''spy a''" "''spy''" "''a''" "[]" "''@a''" "[''status'']" "''a''"] t1 v1 a1
  have "index (getClient 7 ?W) = - 1" and "processCommand [NL] 7 ?W = Inl IndexOutOfRange"
    and "processCommand ''spy a'' 7 ?W = Inl IndexOutOfRange"
    by blast+
  moreover
  from unknown_session_replace_out_of_range[OF absent,
      of "''@a status''" "''spy''" "''a''" "[]" "''@a''" "[''status'']" "''a''"] t2 v2 a2
  have "processCommand ''@a status'' 7 ?W = Inl IndexOutOfRange"
    by blast
  ultimately show ?thesis by simp
qed

section \<open>C4: the sender id of the @ command\<close>

text \<open>
  C4 fails on the code. The sender id of an \<open>@\<close> command is cut out of the first token
  after the whole token has been lower-cased, so it is looked up in lower case: with the
  sender \<open>Alpha\<close> registered, \<open>@Alpha status\<close> is answered with
  \<open>Sender not found: alpha\<close> and changes nothing, while \<open>spy Alpha\<close>, which reads the
  id from the second token as supplied, subscribes the session to \<open>Alpha\<close>.
\<close>

theorem at_command_lowers_sender:
  "processCommand ''@Alpha status'' 42
     \<lparr>clients = [\<lparr>socketDescriptor = 42, name = ''Host-42'', user = ''Anonymous'',
                  admin = 0, mode = 0, Sender = [], index = - 1\<rparr>],
      senders = [''Alpha'']\<rparr>
   = Inr (\<lparr>clients = [\<lparr>socketDescriptor = 42, name = ''Host-42'', user = ''Anonymous'',
                        admin = 0, mode = 0, Sender = [], index = - 1\<rparr>],
            senders = [''Alpha'']\<rparr>,
          [messageToClient_signal
             ([NL] @ ''Sender not found: alpha'' @ [NL] @ ''Host-42:> '') 42])
   \<and> processCommand ''spy Alpha'' 42
     \<lparr>clients = [\<lparr>socketDescriptor = 42, name = ''Host-42'', user = ''Anonymous'',
                  admin = 0, mode = 0, Sender = [], index = - 1\<rparr>],
      senders = [''Alpha'']\<rparr>
   = Inr (\<lparr>clients = [\<lparr>socketDescriptor = 42, name = ''Host-42'', user = ''Anonymous'',
                        admin = 0, mode = 1, Sender = ''Alpha'', index = 0\<rparr>],
            senders = [''Alpha'']\<rparr>, [])"
  by code_simp

section \<open>C5: the spy command\<close>



section \<open>C6: the list command\<close>

text \<open>
  C6, as stated, fails: \<open>registerClient\<close> names a new session \<open>Host-\<close> followed by the
  decimal form of its socket descriptor, so the session connected under 42 has the name
  \<open>Host-42\<close>, and the reply to \<open>list\<close> ends with the prompt \<open>Host-42:> \<close>, not \<open>42:> \<close>.
\<close>

theorem list_reply_counterexample:
  "name (getClient 42 (registerMessageSender ''B'' (registerMessageSender ''A''
      (fst (registerClient 42 SCDMsgCenter))))) = ''Host-42''
   \<and> processCommand ''list'' 42 (registerMessageSender ''B'' (registerMessageSender ''A''
      (fst (registerClient 42 SCDMsgCenter))))
     = Inr (registerMessageSender ''B'' (registerMessageSender ''A''
              (fst (registerClient 42 SCDMsgCenter))),
            [messageToClient_signal
               ([NL] @ ''   - A'' @ [NL] @ ''   - B'' @ [NL, NL] @ ''Host-42:> '') 42])
   \<and> processCommand ''list'' 42 (registerMessageSender ''B'' (registerMessageSender ''A''
      (fst (registerClient 42 SCDMsgCenter))))
     \<noteq> Inr (registerMessageSender ''B'' (registerMessageSender ''A''
              (fst (registerClient 42 SCDMsgCenter))),
            [messageToClient_signal
               ([NL] @ ''   - A'' @ [NL] @ ''   - B'' @ [NL, NL] @ ''42:> '') 42])"
  by code_simp

text \<open>
  C6, amended. A session that \<open>registerClient\<close> creates under the socket descriptor
  \<open>sd\<close> has the name \<open>Host-\<close> followed by the decimal form of \<open>sd\<close>. An existing session
  that sends \<open>list\<close> receives exactly a newline, one line of three spaces, a hyphen, a
  space and the sender id for each registered sender, in the order of the list
  \<open>senders\<close> (the order of registration), and the prompt: a newline, the name of the
  session and \<open>:> \<close>; the state is unchanged. For the session 42 and the senders \<open>A\<close>
  then \<open>B\<close> the reply ends with \<open>Host-42:> \<close>.
\<close>

theorem list_reply:
  "(sd \<notin> socketDescriptor ` set (clients st) \<longrightarrow>
      name (getClient sd (fst (registerClient sd st))) = ''Host-'' @ number sd)
   \<and> (sd \<in> socketDescriptor ` set (clients st) \<longrightarrow>
      processCommand ''list'' sd st =
        Inr (st, [messageToClient_signal
                    ([NL] @ concat (map (\<lambda>s. ''   - '' @ s @ [NL]) (senders st))
                     @ [NL] @ name (getClient sd st) @ '':> '') sd]))"
proof -
  have new: "name (getClient sd (fst (registerClient sd st))) = ''Host-'' @ number sd"
    if absent: "sd \<notin> socketDescriptor ` set (clients st)"
  proof -
    let ?c = "(getClient sd st)\<lparr>socketDescriptor := sd, name := ''Host-'' @ number sd,
        user := ''Anonymous'', admin := 0, mode := 0\<rparr>"
    have st1: "fst (registerClient sd st) = st\<lparr>clients := clients st @ [?c]\<rparr>"
      using index_getClient_absent[OF absent] by (simp add: registerClient_def Let_def)
    have "getClient_from 0 sd (clients st @ [?c])
        = ((clients st @ [?c]) ! length (clients st))\<lparr>index := int (length (clients st))\<rparr>"
      using absent by (intro getClient_from_first) (auto simp: nth_append image_iff)
    then show ?thesis by (simp add: st1 getClient_def)
  qed
  have tokens: "split_SkipEmptyParts ''list'' = ''list'' # []" by code_simp
  have verb: "trimmed (toLower ''list'') = ''list''" by code_simp
  have reply: "processCommand ''list'' sd st =
        Inr (st, [messageToClient_signal
                    ([NL] @ concat (map (\<lambda>s. ''   - '' @ s @ [NL]) (senders st))
                     @ [NL] @ name (getClient sd st) @ '':> '') sd])"
    if session: "sd \<in> socketDescriptor ` set (clients st)"
    by (simp add: list_dispatch[OF tokens verb] getPrompt_found[OF session])
  from new reply show ?thesis by blast
qed

theorem list_reply_witness:
  "name (getClient 42 (fst (registerClient 42 SCDMsgCenter))) = ''Host-42''
   \<and> processCommand ''list'' 42 (registerMessageSender ''B'' (registerMessageSender ''A''
      (fst (registerClient 42 SCDMsgCenter))))
     = Inr (registerMessageSender ''B'' (registerMessageSender ''A''
              (fst (registerClient 42 SCDMsgCenter))),
            [messageToClient_signal
               ([NL] @ ''   - A'' @ [NL] @ ''   - B'' @ [NL, NL] @ ''Host-42:> '') 42])"
  (is "_ \<and> processCommand _ _ ?W = _")
proof -
  have absent: "42 \<notin> socketDescriptor ` set (clients SCDMsgCenter)"
    by (simp add: SCDMsgCenter_def)
  have num: "''Host-'' @ number 42 = ''Host-42''" by code_simp
  have session: "42 \<in> socketDescriptor ` set (clients ?W)" by code_simp
  have regs: "senders ?W = [''A'', ''B'']" by code_simp
  have nm: "name (getClient 42 ?W) = ''Host-42''" by code_simp
  from list_reply[of 42 SCDMsgCenter] absent num
  have "name (getClient 42 (fst (registerClient 42 SCDMsgCenter))) = ''Host-42''"
    by simp
  moreover from list_reply[of 42 ?W] session
  have "processCommand ''list'' 42 ?W
     = Inr (?W, [messageToClient_signal
               ([NL] @ ''   - A'' @ [NL] @ ''   - B'' @ [NL, NL] @ ''Host-42:> '') 42])"
    by (simp add: regs nm)
  ultimately show ?thesis by simp
qed

section \<open>C7: the echo of an unrecognized command\<close>

text \<open>
  C7, as stated, fails: the echo is the first token delimited by the space character
  only, so a tab inside it is echoed with what follows it. The line \<open>foo\<close>, tab,
  \<open>bar baz\<close> is answered with \<open>foo\<close>, tab, \<open>bar\<close>, while its lower-cased first
  token delimited by white space is \<open>foo\<close>.
\<close>

theorem echo_counterexample:
  "processCommand (''foo'' @ [CHR 0x09] @ ''bar baz'') 42
     \<lparr>clients = [\<lparr>socketDescriptor = 42, name = ''Host-42'', user = ''Anonymous'',
                  admin = 0, mode = 0, Sender = [], index = - 1\<rparr>],
      senders = []\<rparr>
   = Inr (\<lparr>clients = [\<lparr>socketDescriptor = 42, name = ''Host-42'', user = ''Anonymous'',
                        admin = 0, mode = 0, Sender = [], index = - 1\<rparr>],
            senders = []\<rparr>,
          [messageToClient_signal (''foo'' @ [CHR 0x09] @ ''bar'') 42])
   \<and> toLower (first_whitespace_token (''foo'' @ [CHR 0x09] @ ''bar baz'')) = ''foo''
   \<and> ''foo'' @ [CHR 0x09] @ ''bar'' \<noteq> ''foo''"
  by code_simp

text \<open>
  C7, amended. An existing session sends a line whose first token, delimited by the
  space character and lower-cased, has a trimmed form that is not empty, is none of
  \<open>spy\<close>, \<open>exit\<close>, \<open>list\<close>, \<open>ping\<close> and \<open>help\<close>, and does not start with \<open>@\<close>. The
  session receives back exactly that lower-cased token, untrimmed, with no prompt after
  it; the state is unchanged and the tokens after the first are dropped from the echo.
\<close>

theorem echo_unrecognized:
  assumes session: "sd \<in> socketDescriptor ` set (clients st)"
    and tokens: "split_SkipEmptyParts line = tok # args"
    and unknown: "trimmed (toLower tok) \<notin> {''spy'', ''exit'', ''list'', ''ping'', ''help''}"
    and nonempty: "trimmed (toLower tok) \<noteq> []"
    and no_at: "trimmed (toLower tok) ! 0 \<noteq> CHR ''@''"
  shows "processCommand line sd st = Inr (st, [messageToClient_signal (toLower tok) sd])"
  using index_getClient_found[OF session]
  by (simp add: echo_dispatch[OF tokens unknown nonempty no_at])

theorem echo_unrecognized_witness:
  "processCommand ''foo bar baz'' 42
     \<lparr>clients = [\<lparr>socketDescriptor = 42, name = ''Host-42'', user = ''Anonymous'',
                  admin = 0, mode = 0, Sender = [], index = - 1\<rparr>],
      senders = []\<rparr>
   = Inr (\<lparr>clients = [\<lparr>socketDescriptor = 42, name = ''Host-42'', user = ''Anonymous'',
                        admin = 0, mode = 0, Sender = [], index = - 1\<rparr>],
            senders = []\<rparr>,
          [messageToClient_signal ''foo'' 42])"
  (is "processCommand _ _ ?W = _")
proof -
  have session: "42 \<in> socketDescriptor ` set (clients ?W)" by simp
  have tokens: "split_SkipEmptyParts ''foo bar baz'' = ''foo'' # [''bar'', ''baz'']"
    by code_simp
  have low: "toLower ''foo'' = ''foo''" by code_simp
  have trim: "trimmed ''foo'' = ''foo''" by code_simp
  have unknown: "trimmed (toLower ''foo'') \<notin> {''spy'', ''exit'', ''list'', ''ping'', ''help''}"
    by (simp add: low trim)
  have nonempty: "trimmed (toLower ''foo'') \<noteq> []" by (simp add: low trim)
  have no_at: "trimmed (toLower ''foo'') ! 0 \<noteq> CHR ''@''" by (simp add: low trim)
  from echo_unrecognized[OF session tokens unknown nonempty no_at] show ?thesis
    by (simp add: low)
qed

section \<open>C8: ping\<close>

text \<open>
  C8. Each of the lines \<open>PING\<close>, \<open>Ping\<close> and \<open>ping\<close> is answered with exactly the
  text \<open>pong\<close>, with no prompt after it, and leaves the state as it is. This holds for
  every state and every socket descriptor, so for every existing session.
\<close>

theorem ping_replies_pong:
  "processCommand ''PING'' sd st = Inr (st, [messageToClient_signal ''pong'' sd])
   \<and> processCommand ''Ping'' sd st = Inr (st, [messageToClient_signal ''pong'' sd])
   \<and> processCommand ''ping'' sd st = Inr (st, [messageToClient_signal ''pong'' sd])"
proof -
  have "processCommand ''PING'' sd st = Inr (st, [messageToClient_signal ''pong'' sd])"
    unfolding processCommand_def by code_simp
  moreover
  have "processCommand ''Ping'' sd st = Inr (st, [messageToClient_signal ''pong'' sd])"
    unfolding processCommand_def by code_simp
  moreover
  have "processCommand ''ping'' sd st = Inr (st, [messageToClient_signal ''pong'' sd])"
    unfolding processCommand_def by code_simp
  ultimately show ?thesis by simp
qed

theorem ping_replies_pong_witness:
  "processCommand ''PING'' 42 (fst (registerClient 42 SCDMsgCenter))
     = Inr (fst (registerClient 42 SCDMsgCenter), [messageToClient_signal ''pong'' 42])
   \<and> 42 \<in> socketDescriptor ` set (clients (fst (registerClient 42 SCDMsgCenter)))"
proof -
  have "42 \<in> socketDescriptor ` set (clients (fst (registerClient 42 SCDMsgCenter)))"
    by code_simp
  with ping_replies_pong[of 42 "fst (registerClient 42 SCDMsgCenter)"] show ?thesis
    by simp
qed

section \<open>C9: registering twice\<close>

text \<open>
  C9. In every reachable state, registering the sender \<open>x\<close> a second time changes
  nothing, the list \<open>senders\<close> then holds \<open>x\<close> exactly once and has no duplicates, and
  the first registration keeps the list as it was or appends \<open>x\<close> at its end (the
  order of insertion is kept). Registering the socket descriptor \<open>sd\<close> a second time
  changes nothing and emits nothing, and \<open>clients\<close> then holds exactly one record with
  that descriptor; when the first call created it, it is the record with the defaults
  of that call (name \<open>Host-\<close> and the number, user \<open>Anonymous\<close>, mode 0).
\<close>

theorem registering_twice:
  assumes "reachable st"
  shows "registerMessageSender x (registerMessageSender x st) = registerMessageSender x st
     \<and> count_list (senders (registerMessageSender x (registerMessageSender x st))) x = 1
     \<and> distinct (senders (registerMessageSender x (registerMessageSender x st)))
     \<and> senders (registerMessageSender x st)
         = (if x \<in> set (senders st) then senders st else senders st @ [x])
     \<and> registerClient sd (fst (registerClient sd st)) = (fst (registerClient sd st), [])
     \<and> length (filter (\<lambda>c. socketDescriptor c = sd)
           (clients (fst (registerClient sd (fst (registerClient sd st)))))) = 1
     \<and> (sd \<notin> socketDescriptor ` set (clients st) \<longrightarrow>
          filter (\<lambda>c. socketDescriptor c = sd)
            (clients (fst (registerClient sd (fst (registerClient sd st)))))
          = [Client_default\<lparr>index := - 1, socketDescriptor := sd,
               name := ''Host-'' @ number sd, user := ''Anonymous'', admin := 0,
               mode := 0\<rparr>])"
proof -
  let ?st1 = "fst (registerClient sd st)"
  from reachable_distinct[OF assms] have ds: "distinct (senders st)"
    and dc: "distinct (map socketDescriptor (clients st))" by simp_all
  have twice: "registerMessageSender x (registerMessageSender x st) = registerMessageSender x st"
    by (simp add: registerMessageSender_def)
  have ds1: "distinct (senders (registerMessageSender x st))"
    using ds by (simp add: registerMessageSender_def)
  have mem: "x \<in> set (senders (registerMessageSender x st))"
    by (simp add: registerMessageSender_def)
  have once: "count_list (senders (registerMessageSender x st)) x = 1"
    using ds1 mem by (simp add: count_list_distinct)
  have order: "senders (registerMessageSender x st)
      = (if x \<in> set (senders st) then senders st else senders st @ [x])"
    by (simp add: registerMessageSender_def)
  have "reachable ?st1"
    using reachable.after_addClient[OF assms, of sd] by (simp add: addClient_def)
  from reachable_distinct[OF this] have dc1: "distinct (map socketDescriptor (clients ?st1))"
    by simp
  have present: "sd \<in> socketDescriptor ` set (clients ?st1)"
    by (auto simp: fst_registerClient)
  then have "index (getClient sd ?st1) \<noteq> - 1" by (simp add: index_getClient_iff)
  then have again: "registerClient sd ?st1 = (?st1, [])"
    by (simp add: registerClient_def Let_def)
  from present obtain c where c: "c \<in> set (clients ?st1)" "socketDescriptor c = sd"
    by auto
  from filter_descriptor_distinct[OF dc1 c(1)] c(2)
  have one: "filter (\<lambda>d. socketDescriptor d = sd) (clients ?st1) = [c]" by simp
  have fresh: "filter (\<lambda>c. socketDescriptor c = sd) (clients ?st1)
      = [Client_default\<lparr>index := - 1, socketDescriptor := sd,
           name := ''Host-'' @ number sd, user := ''Anonymous'', admin := 0, mode := 0\<rparr>]"
    if absent: "sd \<notin> socketDescriptor ` set (clients st)"
  proof -
    from absent have "\<forall>d \<in> set (clients st). socketDescriptor d \<noteq> sd" by auto
    then have "filter (\<lambda>c. socketDescriptor c = sd) (clients st) = []"
      by (simp add: filter_empty_conv)
    with absent show ?thesis by (simp add: fst_registerClient)
  qed
  from twice once ds1 order again one fresh show ?thesis by simp
qed

theorem registering_twice_witness:
  "senders (registerMessageSender ''A'' (registerMessageSender ''A''
      (addSender ''B'' SCDMsgCenter))) = [''B'', ''A'']
   \<and> clients (fst (registerClient 42 (fst (registerClient 42 (addSender ''B'' SCDMsgCenter)))))
     = [\<lparr>socketDescriptor = 42, name = ''Host-42'', user = ''Anonymous'', admin = 0,
         mode = 0, Sender = [], index = - 1\<rparr>]
   \<and> snd (registerClient 42 (fst (registerClient 42 (addSender ''B'' SCDMsgCenter)))) = []"
proof -
  let ?W = "addSender ''B'' SCDMsgCenter"
  have r: "reachable ?W"
    by (rule reachable.after_addSender) (rule reachable.constructed)
  have s1: "senders (registerMessageSender ''A'' ?W) = [''B'', ''A'']" by code_simp
  have c1: "clients (fst (registerClient 42 ?W))
     = [\<lparr>socketDescriptor = 42, name = ''Host-42'', user = ''Anonymous'', admin = 0,
         mode = 0, Sender = [], index = - 1\<rparr>]" by code_simp
  from registering_twice[OF r, of "''A''" 42] show ?thesis
    by (simp add: s1 c1)
qed

section \<open>C10: the @ command with no command text\<close>

text \<open>
  C10 fails on the code, by the same lower-casing of the sender id: with the sender
  \<open>Alpha\<close> registered, the line \<open>@Alpha\<close> is answered with \<open>Sender not found: alpha\<close>
  and neither changes the session nor emits a command. (For a sender registered in
  lower case, \<open>@alpha\<close> does subscribe the session and emits the command with the
  empty text.)
\<close>

theorem at_command_alone_lowers_sender:
  "processCommand ''@Alpha'' 42
     \<lparr>clients = [\<lparr>socketDescriptor = 42, name = ''Host-42'', user = ''Anonymous'',
                  admin = 0, mode = 0, Sender = [], index = - 1\<rparr>],
      senders = [''Alpha'']\<rparr>
   = Inr (\<lparr>clients = [\<lparr>socketDescriptor = 42, name = ''Host-42'', user = ''Anonymous'',
                        admin = 0, mode = 0, Sender = [], index = - 1\<rparr>],
            senders = [''Alpha'']\<rparr>,
          [messageToClient_signal
             ([NL] @ ''Sender not found: alpha'' @ [NL] @ ''Host-42:> '') 42])
   \<and> processCommand ''@alpha'' 42
     \<lparr>clients = [\<lparr>socketDescriptor = 42, name = ''Host-42'', user = ''Anonymous'',
                  admin = 0, mode = 0, Sender = [], index = - 1\<rparr>],
      senders = [''alpha'']\<rparr>
   = Inr (\<lparr>clients = [\<lparr>socketDescriptor = 42, name = ''Host-42'', user = ''Anonymous'',
                        admin = 0, mode = 1, Sender = ''alpha'', index = 0\<rparr>],
            senders = [''alpha'']\<rparr>,
          [commandToSender_signal [] ''alpha''])"
  by code_simp

end
